theory Spec2Isabelle
  imports Main "HOL-Library.Monad_Syntax"
begin

section \<open>Kinds, compile-time failure and the standard tuple primitives\<close>

text \<open>
  The library computes on C++ types at compile time. A \<^emph>\<open>kind\<close> is such a type together with
  its ownership category: a plain type is an owned value, \<open>LRef T\<close> is \<open>T&\<close> and \<open>RRef T\<close> is
  \<open>T&&\<close>. A \<open>std::tuple<Ts...>\<close> type is the list of its element kinds, and a
  \<open>std::index_sequence<Ns...>\<close> is the list of its indices.

  An instantiation that is ill-formed (a missing \<open>::type\<close> member, an index out of range,
  a failed \<open>static_assert\<close>) has no result: the functions below return \<open>None\<close> there.
\<close>

datatype kind =
    Void
  | Nonesuch
  | IntT
  | CharT
  | Class string
  | LRef kind
  | RRef kind
  | Tuple "kind list"
  | FnPtr kind "kind list"
  | Inst string "kind list"

fun is_reference :: "kind \<Rightarrow> bool" where
  "is_reference (LRef _) = True"
| "is_reference (RRef _) = True"
| "is_reference _ = False"

text \<open>\<open>std::tuple_element_t<N, Tuple>\<close>: ill-formed when \<open>N\<close> is not a position of the tuple.\<close>

definition tuple_element_t :: "nat \<Rightarrow> 'k list \<Rightarrow> 'k option" where
  "tuple_element_t n ts = (if n < length ts then Some (ts ! n) else None)"

text \<open>\<open>std::tuple_size_v<Tuple>\<close>.\<close>

definition tuple_size_v :: "'k list \<Rightarrow> nat" where
  "tuple_size_v ts = length ts"

text \<open>\<open>std::make_index_sequence<N>\<close> is \<open>std::index_sequence<0, 1, ..., N-1>\<close>.\<close>

definition make_index_sequence :: "nat \<Rightarrow> nat list" where
  "make_index_sequence n = [0..<n]"

section \<open>Type-level sequence algebra (meta/tuple.h)\<close>

text \<open>\<open>detail::index_helper\<close> and the type-level \<open>detail::first_impl<Pred, Offset, Tuple>\<close>
  (abort case on the 0-tuple, recursive case on \<open>std::tuple<Head, Tail...>\<close>); \<open>::index\<close> is
  documented as undefined when \<open>::value\<close> is false.\<close>

record index_helper =
  ih_value :: bool
  ih_index :: nat

fun meta_first_impl :: "('k \<Rightarrow> bool) \<Rightarrow> nat \<Rightarrow> 'k list \<Rightarrow> index_helper" where
  "meta_first_impl Pred Offset [] = \<lparr>ih_value = False, ih_index = Offset\<rparr>"
| "meta_first_impl Pred Offset (Head # Tail) =
     (if Pred Head then \<lparr>ih_value = True, ih_index = Offset\<rparr>
      else meta_first_impl Pred (Offset + 1) Tail)"

definition meta_first :: "('k \<Rightarrow> bool) \<Rightarrow> 'k list \<Rightarrow> index_helper" where
  "meta_first Pred t = meta_first_impl Pred 0 t"

text \<open>\<open>find<T, Tuple> = first<partial<std::is_same, T>::template type, Tuple>\<close>, where
  \<open>partial<Target, First...>::type<Last...>\<close> is \<open>Target<First..., Last...>\<close>.\<close>

definition partial :: "('k list \<Rightarrow> 'r) \<Rightarrow> 'k list \<Rightarrow> 'k list \<Rightarrow> 'r" where
  "partial Target First Last = Target (First @ Last)"

definition std_is_same :: "'k list \<Rightarrow> bool" where
  "std_is_same ks = (case ks of [a, b] \<Rightarrow> a = b | _ \<Rightarrow> False)"

definition meta_find :: "'k \<Rightarrow> 'k list \<Rightarrow> index_helper" where
  "meta_find T t = meta_first (\<lambda>x. partial std_is_same [T] [x]) t"

text \<open>\<open>detail::tuple_cat_impl\<close>: the two abort cases and the recursive case, in source order.\<close>

fun tuple_cat_impl :: "'k list list \<Rightarrow> 'k list" where
  "tuple_cat_impl [] = []"
| "tuple_cat_impl [ts] = ts"
| "tuple_cat_impl (ls # rs # rest) = tuple_cat_impl ((ls @ rs) # rest)"

definition tuple_cat_t :: "'k list list \<Rightarrow> 'k list" where
  "tuple_cat_t tuples = tuple_cat_impl tuples"

text \<open>\<open>detail::tuple_flip_impl\<close>: flip the tail, then append the head.\<close>

fun tuple_flip_impl :: "'k list \<Rightarrow> 'k list" where
  "tuple_flip_impl (h # ts) = tuple_cat_impl [tuple_flip_impl ts, [h]]"
| "tuple_flip_impl [] = []"

definition tuple_flip_t :: "'k list \<Rightarrow> 'k list" where
  "tuple_flip_t t = tuple_flip_impl t"

text \<open>\<open>detail::tuple_pick_impl\<close>: the suffix is computed first, then the head element is put
  in front of it.\<close>

fun tuple_pick_impl :: "'k list \<Rightarrow> nat list \<Rightarrow> 'k list option" where
  "tuple_pick_impl t (h # tail) =
     do { suffix \<leftarrow> tuple_pick_impl t tail;
          e \<leftarrow> tuple_element_t h t;
          Some (tuple_cat_impl [[e], suffix]) }"
| "tuple_pick_impl t [] = Some []"

definition tuple_pick_t :: "'k list \<Rightarrow> nat list \<Rightarrow> 'k list option" where
  "tuple_pick_t t ns = tuple_pick_impl t ns"

text \<open>\<open>detail::tuple_dup_impl\<close>.\<close>

fun tuple_dup_impl :: "nat \<Rightarrow> 'k list \<Rightarrow> 'k list" where
  "tuple_dup_impl 0 t = []"
| "tuple_dup_impl (Suc n) t = tuple_cat_impl [t, tuple_dup_impl n t]"

definition tuple_dup_t :: "nat \<Rightarrow> 'k list \<Rightarrow> 'k list" where
  "tuple_dup_t n t = tuple_dup_impl n t"

text \<open>\<open>detail::tuple_skip_one\<close> and \<open>detail::tuple_take_one\<close> have no \<open>type\<close> member for the
  0-tuple (the fallback cases are commented out in the source).\<close>

fun tuple_skip_one :: "'k list \<Rightarrow> 'k list option" where
  "tuple_skip_one (h # tail) = Some tail"
| "tuple_skip_one [] = None"

fun tuple_take_one :: "'k list \<Rightarrow> 'k list option" where
  "tuple_take_one (h # tail) = Some [h]"
| "tuple_take_one [] = None"

fun tuple_skip_impl :: "nat \<Rightarrow> 'k list \<Rightarrow> 'k list option" where
  "tuple_skip_impl 0 t = Some t"
| "tuple_skip_impl (Suc n) t =
     do { prefix \<leftarrow> tuple_skip_one t;
          tuple_skip_impl n prefix }"

definition tuple_skip_t :: "nat \<Rightarrow> 'k list \<Rightarrow> 'k list option" where
  "tuple_skip_t n t = tuple_skip_impl n t"

fun tuple_take_impl :: "nat \<Rightarrow> 'k list \<Rightarrow> 'k list option" where
  "tuple_take_impl 0 t = Some []"
| "tuple_take_impl (Suc n) t =
     do { prefix \<leftarrow> tuple_take_one t;
          suffix \<leftarrow> tuple_skip_one t;
          rest \<leftarrow> tuple_take_impl n suffix;
          Some (tuple_cat_impl [prefix, rest]) }"

definition tuple_take_t :: "nat \<Rightarrow> 'k list \<Rightarrow> 'k list option" where
  "tuple_take_t n t = tuple_take_impl n t"

text \<open>\<open>tuple_slice_t<Start, Length, Tuple> = tuple_take_t<Length, tuple_skip_t<Start, Tuple>>\<close>.\<close>

definition tuple_slice_t :: "nat \<Rightarrow> nat \<Rightarrow> 'k list \<Rightarrow> 'k list option" where
  "tuple_slice_t start len t = do { s \<leftarrow> tuple_skip_t start t; tuple_take_t len s }"

section \<open>Index sequence algebra (meta/indices.h)\<close>

text \<open>Indices are \<open>std::size_t\<close>; the model takes 64 bits and writes the wrap-around out.\<close>

definition SIZE_MOD :: nat where
  "SIZE_MOD = 2 ^ 64"

definition size_t_add :: "nat \<Rightarrow> nat \<Rightarrow> nat" where
  "size_t_add a b = (a + b) mod SIZE_MOD"

definition size_t_mul :: "nat \<Rightarrow> nat \<Rightarrow> nat" where
  "size_t_mul a b = (a * b) mod SIZE_MOD"

definition size_t_sub :: "nat \<Rightarrow> nat \<Rightarrow> nat" where
  "size_t_sub a b = (a + SIZE_MOD - b mod SIZE_MOD) mod SIZE_MOD"

text \<open>\<open>detail::map_index_sequence_impl\<close>, \<open>detail::shift_index_impl\<close> (\<open>N + Shift\<close>) and
  \<open>detail::scale_index_impl\<close> (\<open>N * Scale\<close>).\<close>

definition map_index_sequence_t :: "(nat \<Rightarrow> nat) \<Rightarrow> nat list \<Rightarrow> nat list" where
  "map_index_sequence_t Fn ns = map Fn ns"

definition shift_index_impl :: "nat \<Rightarrow> nat \<Rightarrow> nat" where
  "shift_index_impl shift n = size_t_add n shift"

definition scale_index_impl :: "nat \<Rightarrow> nat \<Rightarrow> nat" where
  "scale_index_impl scale n = size_t_mul n scale"

definition shift_index_sequence_t :: "nat \<Rightarrow> nat list \<Rightarrow> nat list" where
  "shift_index_sequence_t shift ns = map_index_sequence_t (shift_index_impl shift) ns"

definition scale_index_sequence_t :: "nat \<Rightarrow> nat list \<Rightarrow> nat list" where
  "scale_index_sequence_t scale ns = map_index_sequence_t (scale_index_impl scale) ns"

definition make_index_range :: "nat \<Rightarrow> nat \<Rightarrow> nat list" where
  "make_index_range start len = shift_index_sequence_t start (make_index_sequence len)"

section \<open>Value-level sequence algebra (tuple/*.h)\<close>

text \<open>
  A tuple object is the list of its elements. An element has its kind and its payload: an
  owned element stores a value of its own, and a reference element (\<open>T&\<close> or \<open>T&&\<close>) holds the
  address of storage that lives outside the tuple. The functors are called on rvalue tuples
  (\<open>Tuple\<close> is deduced as the tuple type itself), as in the test suite.
\<close>

type_synonym addr = nat

datatype payload = Stored int | At addr

type_synonym elem = "kind \<times> payload"

definition kinds_of :: "elem list \<Rightarrow> kind list" where
  "kinds_of t = map fst t"

text \<open>\<open>std::get<N>(std::forward<Tuple>(tuple))\<close> denotes element \<open>N\<close>; it is ill-formed when
  \<open>N\<close> is not a position of the tuple.\<close>

definition std_get :: "nat \<Rightarrow> 'a list \<Rightarrow> 'a option" where
  "std_get n t = (if n < length t then Some (t ! n) else None)"

text \<open>\<open>std::tuple<E>(x)\<close>: a 1-tuple whose element has kind \<open>E\<close>, initialised from \<open>x\<close>. An owned
  element receives a copy of the value, a reference element is bound to the same storage.\<close>

definition std_tuple1 :: "kind \<Rightarrow> elem \<Rightarrow> elem list" where
  "std_tuple1 E x = [(E, snd x)]"

text \<open>\<open>std::tuple_cat\<close> of two tuples keeps every element, in order, and \<open>std::make_tuple\<close>
  builds the tuple of its arguments.\<close>

definition std_make_tuple :: "'a list \<Rightarrow> 'a list" where
  "std_make_tuple xs = xs"

definition std_tuple_cat :: "'a list \<Rightarrow> 'a list \<Rightarrow> 'a list" where
  "std_tuple_cat a b = a @ b"

text \<open>The address a reference element aliases (what \<open>addressof(get<I>(t))\<close> reads in
  the tests); an owned element lives inside its tuple and has none outside it.\<close>

fun storage :: "elem \<Rightarrow> addr option" where
  "storage (k, At a) = Some a"
| "storage (k, Stored v) = None"

text \<open>A tuple object is well-formed when exactly its reference elements hold an address.\<close>

fun wf_elem :: "elem \<Rightarrow> bool" where
  "wf_elem (k, At a) = is_reference k"
| "wf_elem (k, Stored v) = (\<not> is_reference k)"

text \<open>\<open>flip_f::operator()<Tuple, N>\<close>, with \<open>N\<close> defaulting to the tuple size.\<close>

fun flip_f_N :: "elem list \<Rightarrow> nat \<Rightarrow> elem list option" where
  "flip_f_N t 0 = Some []"
| "flip_f_N t (Suc n) =
     do { E \<leftarrow> tuple_element_t n (kinds_of t);
          x \<leftarrow> std_get n t;
          rest \<leftarrow> flip_f_N t n;
          Some (std_tuple_cat (std_tuple1 E x) rest) }"

definition flip_f :: "elem list \<Rightarrow> elem list option" where
  "flip_f t = flip_f_N t (tuple_size_v t)"

text \<open>\<open>pick_f<Head, Tail...>\<close> and the abort case \<open>pick_f<>\<close>.\<close>

fun pick_f :: "nat list \<Rightarrow> elem list \<Rightarrow> elem list option" where
  "pick_f (h # tail) t =
     do { E \<leftarrow> tuple_element_t h (kinds_of t);
          x \<leftarrow> std_get h t;
          rest \<leftarrow> pick_f tail t;
          Some (std_tuple_cat (std_tuple1 E x) rest) }"
| "pick_f [] t = Some []"


text \<open>\<open>apply_index_sequence_t<pick_f, Seq>\<close> is \<open>pick_f<Ns...>\<close> for the indices of \<open>Seq\<close>.\<close>

definition take_f :: "nat \<Rightarrow> elem list \<Rightarrow> elem list option" where
  "take_f n t = pick_f (make_index_sequence n) t"

definition skip_f :: "nat \<Rightarrow> elem list \<Rightarrow> elem list option" where
  "skip_f n t = pick_f (make_index_range n (size_t_sub (tuple_size_v t) n)) t"

definition slice_f :: "nat \<Rightarrow> nat \<Rightarrow> elem list \<Rightarrow> elem list option" where
  "slice_f start len t = pick_f (make_index_range start len) t"

text \<open>
  The functors take their tuple as a forwarding reference \<open>Tuple&&\<close>. For an rvalue of tuple
  type \<open>T\<close> the parameter \<open>Tuple\<close> is \<open>T\<close>, which is what the definitions above describe. For a
  named tuple (an lvalue) \<open>Tuple\<close> is \<open>T&\<close>, for which \<open>std::tuple_size_v\<close> and
  \<open>std::tuple_element_t\<close> have no value: \<open>flip_f\<close> reads the size in a default template
  argument and cannot be called at all, and \<open>pick_f\<close> can only be called with no index.
\<close>

datatype value_category = Lvalue | Rvalue

definition flip_f_call :: "value_category \<Rightarrow> elem list \<Rightarrow> elem list option" where
  "flip_f_call c t = (case c of Rvalue \<Rightarrow> flip_f t | Lvalue \<Rightarrow> None)"

definition pick_f_call :: "value_category \<Rightarrow> nat list \<Rightarrow> elem list \<Rightarrow> elem list option" where
  "pick_f_call c ns t =
     (case c of Rvalue \<Rightarrow> pick_f ns t | Lvalue \<Rightarrow> (if ns = [] then Some [] else None))"

subsection \<open>Reduce and fold\<close>

text \<open>
  The reduction function may have effects (the tests pass one that writes through its
  reference argument), so it threads a state: \<open>fn x y s\<close> is the result of the call and the
  state after it. \<open>pure_fn\<close> lifts an effect-free function and \<open>counted\<close> is one that also
  counts its calls.
\<close>

definition pure_fn :: "('b \<Rightarrow> 'a \<Rightarrow> 'b) \<Rightarrow> 'b \<Rightarrow> 'a \<Rightarrow> 's \<Rightarrow> 'b \<times> 's" where
  "pure_fn f x y s = (f x y, s)"

definition counted :: "('b \<Rightarrow> 'a \<Rightarrow> 'b) \<Rightarrow> 'b \<Rightarrow> 'a \<Rightarrow> nat \<Rightarrow> 'b \<times> nat" where
  "counted f x y n = (f x y, Suc n)"

text \<open>\<open>std::minus{}\<close> on \<open>int\<close> operands (no overflow in the values used here).\<close>

definition std_minus :: "int \<Rightarrow> int \<Rightarrow> int" where
  "std_minus x y = x - y"

text \<open>\<open>detail::reduce_impl<N>::reduce\<close>: \<open>N = 0\<close> fails the \<open>static_assert\<close>, \<open>N = 1\<close> is the
  abort case returning \<open>std::get<0>\<close>, and otherwise \<open>fn\<close> is called on the reduction of the
  first \<open>N-1\<close> elements and \<open>std::get<N-1>\<close>.\<close>

fun reduce_impl :: "nat \<Rightarrow> ('a \<Rightarrow> 'a \<Rightarrow> 's \<Rightarrow> 'a \<times> 's) \<Rightarrow> 'a list \<Rightarrow> 's \<Rightarrow> ('a \<times> 's) option" where
  "reduce_impl 0 fn t s = None"
| "reduce_impl (Suc 0) fn t s = do { x \<leftarrow> std_get 0 t; Some (x, s) }"
| "reduce_impl (Suc (Suc n)) fn t s =
     do { (acc, s') \<leftarrow> reduce_impl (Suc n) fn t s;
          y \<leftarrow> std_get (Suc n) t;
          Some (fn acc y s') }"

definition reduce_f :: "('a \<Rightarrow> 'a \<Rightarrow> 's \<Rightarrow> 'a \<times> 's) \<Rightarrow> 'a list \<Rightarrow> 's \<Rightarrow> ('a \<times> 's) option" where
  "reduce_f fn t s = reduce_impl (tuple_size_v t) fn t s"

text \<open>\<open>detail::fold_impl<N>::fold\<close>: \<open>N = 0\<close> returns \<open>init\<close>.\<close>

fun fold_impl :: "nat \<Rightarrow> ('b \<Rightarrow> 'a \<Rightarrow> 's \<Rightarrow> 'b \<times> 's) \<Rightarrow> 'b \<Rightarrow> 'a list \<Rightarrow> 's \<Rightarrow> ('b \<times> 's) option" where
  "fold_impl 0 fn init t s = Some (init, s)"
| "fold_impl (Suc n) fn init t s =
     do { (acc, s') \<leftarrow> fold_impl n fn init t s;
          y \<leftarrow> std_get n t;
          Some (fn acc y s') }"

definition fold_f :: "('b \<Rightarrow> 'a \<Rightarrow> 's \<Rightarrow> 'b \<times> 's) \<Rightarrow> 'b \<Rightarrow> 'a list \<Rightarrow> 's \<Rightarrow> ('b \<times> 's) option" where
  "fold_f fn init t s = fold_impl (tuple_size_v t) fn init t s"

text \<open>\<open>detail::tuple_reduce_impl<Fn, N, Tuple>\<close>. For \<open>N = 0\<close> the primary template asks for
  \<open>tuple_reduce_impl<Fn, N-1, Tuple>\<close> with \<open>N-1\<close> wrapped around, which never yields a type.\<close>

fun tuple_reduce_impl :: "('k \<Rightarrow> 'k \<Rightarrow> 'k) \<Rightarrow> nat \<Rightarrow> 'k list \<Rightarrow> 'k option" where
  "tuple_reduce_impl Fn 0 t = None"
| "tuple_reduce_impl Fn (Suc 0) t = tuple_element_t 0 t"
| "tuple_reduce_impl Fn (Suc (Suc n)) t =
     do { pred \<leftarrow> tuple_reduce_impl Fn (Suc n) t;
          e \<leftarrow> tuple_element_t (Suc n) t;
          Some (Fn pred e) }"

definition tuple_reduce_t :: "('k \<Rightarrow> 'k \<Rightarrow> 'k) \<Rightarrow> 'k list \<Rightarrow> 'k option" where
  "tuple_reduce_t Fn t = tuple_reduce_impl Fn (tuple_size_v t) t"

definition tuple_fold_t :: "('k \<Rightarrow> 'k \<Rightarrow> 'k) \<Rightarrow> 'k \<Rightarrow> 'k list \<Rightarrow> 'k option" where
  "tuple_fold_t Fn Init t = tuple_reduce_t Fn (tuple_cat_t [[Init], t])"

subsection \<open>First and find\<close>

text \<open>The two overloads of \<open>detail::first_impl<Offset>\<close> have different return types:
  \<open>std::nullopt_t\<close> when \<open>tuple_size_v<Tuple> <= Offset\<close>, \<open>std::optional<std::size_t>\<close>
  otherwise. Returning the result of the next overload from the second one converts it to
  \<open>std::optional<std::size_t>\<close>.\<close>

datatype first_result = Nullopt_t | Optional "nat option"

fun to_optional :: "first_result \<Rightarrow> nat option" where
  "to_optional Nullopt_t = None"
| "to_optional (Optional i) = i"

function first_impl :: "nat \<Rightarrow> ('a \<Rightarrow> bool) \<Rightarrow> 'a list \<Rightarrow> first_result" where
  "first_impl Offset pred t =
     (if tuple_size_v t \<le> Offset then Nullopt_t
      else Optional (if pred (t ! Offset) then Some Offset
                     else to_optional (first_impl (Offset + 1) pred t)))"
  by pat_completeness auto
termination
  by (relation "measure (\<lambda>(Offset, pred, t). length t - Offset)") (auto simp: tuple_size_v_def)

declare first_impl.simps [simp del]

definition first_f :: "('a \<Rightarrow> bool) \<Rightarrow> 'a list \<Rightarrow> first_result" where
  "first_f pred t = first_impl 0 pred t"

text \<open>\<open>find_f\<close> passes the predicate \<open>[&value](auto&& x) { return value == x; }\<close>.\<close>

definition find_f :: "'a \<Rightarrow> 'a list \<Rightarrow> first_result" where
  "find_f v t = first_f (\<lambda>x. v = x) t"

section \<open>Detection engine (meta/detect.h)\<close>

text \<open>
  Instantiating a test template \<open>Op\<close> with \<open>Args...\<close> has one of three outcomes: it is
  well-formed and names a kind; substituting the arguments fails in the immediate context
  (a substitution failure, which only removes a candidate); or it fails outside the
  immediate context, inside a class template that the substitution instantiates, which is
  an error of the translation unit that nothing can observe.

  The partial specialisation of \<open>detail::detect_impl\<close> is chosen when \<open>Op<Args...>\<close> is
  well-formed and \<open>std::void_t<Op<Args...>>\<close> is the second template argument; on a
  substitution failure the primary template is used; a hard error leaves no
  \<open>detect_impl\<close> at all, so the queries have no value (\<open>None\<close>).
\<close>

datatype instantiated = Well_formed kind | Substitution_failure | Hard_error

type_synonym op_template = "kind list \<Rightarrow> instantiated"

definition void_t :: "kind list \<Rightarrow> kind" where
  "void_t ks = Void"

record detect_result =
  value_t :: bool
  type_t :: kind

definition detect_impl :: "kind \<Rightarrow> kind \<Rightarrow> op_template \<Rightarrow> kind list \<Rightarrow> detect_result option" where
  "detect_impl Default Enable Op Args =
     (case Op Args of
        Well_formed r \<Rightarrow> if Enable = void_t [r] then Some \<lparr>value_t = True, type_t = r\<rparr>
                         else Some \<lparr>value_t = False, type_t = Default\<rparr>
      | Substitution_failure \<Rightarrow> Some \<lparr>value_t = False, type_t = Default\<rparr>
      | Hard_error \<Rightarrow> None)"

definition is_detected :: "op_template \<Rightarrow> kind list \<Rightarrow> bool option" where
  "is_detected Op Args = map_option value_t (detect_impl Nonesuch Void Op Args)"

definition detected_or_t :: "kind \<Rightarrow> op_template \<Rightarrow> kind list \<Rightarrow> kind option" where
  "detected_or_t Default Op Args = map_option type_t (detect_impl Default Void Op Args)"

definition detected_t :: "op_template \<Rightarrow> kind list \<Rightarrow> kind option" where
  "detected_t Op Args = detected_or_t Nonesuch Op Args"

text \<open>
  A test template a client can write over the library's own \<open>tuple_skip_t\<close>:
  \<open>template<class T> using skip_n = fxx::meta::tuple_skip_t<N, T>\<close>. With another number of
  arguments the substitution fails at once. With one argument it instantiates
  \<open>detail::tuple_skip_impl<N, T>\<close>: for \<open>N = 0\<close> the abort case names \<open>T\<close> itself; otherwise the
  class reads \<open>tuple_skip_one<...>::type\<close>, which is missing for a non-tuple and for the
  0-tuple, and that failure lies inside the class, outside the immediate context.
\<close>

fun tuple_skip_alias :: "nat \<Rightarrow> kind list \<Rightarrow> instantiated" where
  "tuple_skip_alias n [Tuple ts] =
     (case tuple_skip_t n ts of Some r \<Rightarrow> Well_formed (Tuple r) | None \<Rightarrow> Hard_error)"
| "tuple_skip_alias 0 [T] = Well_formed T"
| "tuple_skip_alias (Suc n) [T] = Hard_error"
| "tuple_skip_alias n Args = Substitution_failure"

text \<open>
  What the library takes from the language and the standard library: \<open>std::is_convertible\<close>
  (\<open>From\<close> first, \<open>To\<close> second), whether \<open>static_cast<To>(std::declval<From>())\<close> is \<open>noexcept\<close>,
  the kind of each operator expression on operands of given kinds (\<open>None\<close> when it is not
  well-formed), and whether that expression is \<open>noexcept\<close>.
\<close>

datatype op_name =
    op_plus | op_inc | op_postinc | op_minus | op_dec | op_postdec | op_multiplies
  | op_divides | op_modulus | op_negate | op_promote
  | op_equal_to | op_not_equal_to | op_greater | op_less | op_greater_equal | op_less_equal
  | op_logical_and | op_logical_or | op_logical_not
  | op_bit_and | op_bit_or | op_bit_xor | op_bit_not | op_bit_left_shift | op_bit_right_shift
  | op_deref | op_addr_of
  | op_subscript
  | op_call

record lang =
  std_is_convertible :: "kind \<Rightarrow> kind \<Rightarrow> bool"
  noexcept_cast :: "kind \<Rightarrow> kind \<Rightarrow> bool"
  expr_t :: "op_name \<Rightarrow> kind list \<Rightarrow> kind option"
  expr_noexcept :: "op_name \<Rightarrow> kind list \<Rightarrow> bool"

text \<open>\<open>std::is_nothrow_convertible\<close> as backported in cxx/is\_nothrow\_convertible.h.\<close>

definition is_nothrow_convertible_impl :: "lang \<Rightarrow> kind \<Rightarrow> kind \<Rightarrow> bool \<Rightarrow> bool" where
  "is_nothrow_convertible_impl L From To c = (if c then noexcept_cast L From To else False)"

definition std_is_nothrow_convertible :: "lang \<Rightarrow> kind \<Rightarrow> kind \<Rightarrow> bool" where
  "std_is_nothrow_convertible L From To =
     is_nothrow_convertible_impl L From To (std_is_convertible L From To)"

definition is_detected_exact :: "kind \<Rightarrow> op_template \<Rightarrow> kind list \<Rightarrow> bool option" where
  "is_detected_exact T Op Args = map_option (\<lambda>d. d = T) (detected_t Op Args)"

definition is_detected_convertible :: "lang \<Rightarrow> kind \<Rightarrow> op_template \<Rightarrow> kind list \<Rightarrow> bool option" where
  "is_detected_convertible L To Op Args =
     map_option (\<lambda>d. std_is_convertible L d To) (detected_t Op Args)"

definition is_detected_nothrow_convertible ::
    "lang \<Rightarrow> kind \<Rightarrow> op_template \<Rightarrow> kind list \<Rightarrow> bool option" where
  "is_detected_nothrow_convertible L To Op Args =
     map_option (\<lambda>d. std_is_nothrow_convertible L d To) (detected_t Op Args)"

section \<open>Operator trait catalog\<close>

subsection \<open>The \<open>has_op\<close> queries (include/fxx/meta/op.h)\<close>

text \<open>The test template \<open>name_t\<close> of an operator is the \<open>decltype\<close> of the operator expression
  on \<open>std::declval\<close> operands: when the expression is not well-formed, the failure is in the
  immediate context.\<close>

definition name_t :: "lang \<Rightarrow> op_name \<Rightarrow> op_template" where
  "name_t L name operands =
     (case expr_t L name operands of Some r \<Rightarrow> Well_formed r | None \<Rightarrow> Substitution_failure)"

text \<open>The macros define the same four queries for every operator \<open>name\<close>, over the test
  template \<open>name_t\<close>; the operands are \<open>[Rhs]\<close> or \<open>[Lhs]\<close> for a unary operator, \<open>[Lhs, Rhs]\<close>
  for a binary one, \<open>[T, Sub]\<close> for subscript and \<open>T # Args\<close> for call (a binary query given
  one kind is the query with \<open>Rhs = Lhs\<close>).\<close>

definition has_op :: "lang \<Rightarrow> op_name \<Rightarrow> kind list \<Rightarrow> bool option" where
  "has_op L name operands = is_detected (name_t L name) operands"

definition has_op_exact :: "lang \<Rightarrow> kind \<Rightarrow> op_name \<Rightarrow> kind list \<Rightarrow> bool option" where
  "has_op_exact L T name operands = is_detected_exact T (name_t L name) operands"

definition has_op_convertible :: "lang \<Rightarrow> kind \<Rightarrow> op_name \<Rightarrow> kind list \<Rightarrow> bool option" where
  "has_op_convertible L To name operands =
     is_detected_convertible L To (name_t L name) operands"

definition has_op_nothrow_convertible ::
    "lang \<Rightarrow> kind \<Rightarrow> op_name \<Rightarrow> kind list \<Rightarrow> bool option" where
  "has_op_nothrow_convertible L To name operands =
     is_detected_nothrow_convertible L To (name_t L name) operands"

definition has_op_call :: "lang \<Rightarrow> kind \<Rightarrow> kind list \<Rightarrow> bool option" where
  "has_op_call L T Args = is_detected (name_t L op_call) (T # Args)"

subsection \<open>The operator trait structs (the \<open>op_name\<close> variant of meta/op.h)\<close>

record operator_trait =
  op_arity :: nat
  op_operand_types :: "kind list"
  op_is_detected :: bool
  op_is_nothrow :: bool
  op_is_convertible :: "kind \<Rightarrow> bool"
  op_is_nothrow_convertible :: "kind \<Rightarrow> bool"
  op_result_type :: "kind option"

text \<open>\<open>operator_base<Operands...>\<close> (it has no \<open>result_type\<close>).\<close>

definition operator_base :: "kind list \<Rightarrow> operator_trait" where
  "operator_base Operands =
     \<lparr>op_arity = length Operands, op_operand_types = Operands, op_is_detected = False,
      op_is_nothrow = False, op_is_convertible = (\<lambda>To. False),
      op_is_nothrow_convertible = (\<lambda>To. False), op_result_type = None\<rparr>"

text \<open>\<open>operator_info<Result, Operands...>\<close>: the members read
  \<open>std::is_convertible_v<To, result_type>\<close> and \<open>std::is_nothrow_convertible_v<To, result_type>\<close>.\<close>

definition operator_info :: "lang \<Rightarrow> kind \<Rightarrow> kind list \<Rightarrow> operator_trait" where
  "operator_info L Result Operands =
     (operator_base Operands)
       \<lparr>op_is_detected := True,
        op_is_convertible := (\<lambda>To. std_is_convertible L To Result),
        op_is_nothrow_convertible := (\<lambda>To. std_is_nothrow_convertible L To Result),
        op_result_type := Some Result\<rparr>"

text \<open>\<open>op_name<Operands..., Enable>\<close> as the macros and \<open>op_subscript\<close> define it: the partial
  specialisation on \<open>std::void_t<name_t<Operands...>>\<close> derives from \<open>operator_info\<close> and sets
  \<open>is_nothrow\<close>; the primary template derives from \<open>operator_base\<close>.\<close>

definition op_struct :: "lang \<Rightarrow> op_name \<Rightarrow> kind list \<Rightarrow> kind \<Rightarrow> operator_trait" where
  "op_struct L name Operands Enable =
     (case expr_t L name Operands of
        Some r \<Rightarrow> if Enable = void_t [r]
                  then (operator_info L r Operands)\<lparr>op_is_nothrow := expr_noexcept L name Operands\<rparr>
                  else operator_base Operands
      | None \<Rightarrow> operator_base Operands)"

definition op_trait :: "lang \<Rightarrow> op_name \<Rightarrow> kind list \<Rightarrow> operator_trait" where
  "op_trait L name Operands = op_struct L name Operands Void"

text \<open>
  \<open>detail::op_call_impl<Ops, Enable>\<close>. The partial specialisation is written on
  \<open>call_t<Target, Args...>\<close> itself, so it is chosen when the call is well-formed and its kind
  is the \<open>Enable\<close> argument. Its base class names \<open>op_call_impl<Target, Args...>\<close> as the result
  type: a template-id of the two-parameter template \<open>op_call_impl\<close> (the second parameter
  defaults to \<open>void\<close>), which is ill-formed with more than two arguments.
\<close>

record call_trait = operator_trait +
  target_type :: kind
  argument_types :: "kind list"
  argument_count :: nat

definition op_call_impl_id :: "kind list \<Rightarrow> kind option" where
  "op_call_impl_id targs =
     (case targs of
        [Ops] \<Rightarrow> Some (Inst ''op_call_impl'' [Ops, Void])
      | [Ops, Enable] \<Rightarrow> Some (Inst ''op_call_impl'' [Ops, Enable])
      | _ \<Rightarrow> None)"

definition op_call_primary :: "kind list \<Rightarrow> call_trait option" where
  "op_call_primary Ops =
     do { target \<leftarrow> tuple_element_t 0 Ops;
          args \<leftarrow> tuple_skip_t 1 Ops;
          Some (operator_trait.extend (operator_base Ops)
                  (call_trait.fields target args (tuple_size_v args))) }"

definition op_call_impl :: "lang \<Rightarrow> kind list \<Rightarrow> kind \<Rightarrow> call_trait option" where
  "op_call_impl L Ops Enable =
     (case Ops of
        [] \<Rightarrow> op_call_primary Ops
      | Target # Args \<Rightarrow>
          (case expr_t L op_call (Target # Args) of
             Some r \<Rightarrow>
               if Enable = r
               then do { Result \<leftarrow> op_call_impl_id (Target # Args);
                         Some (operator_trait.extend
                                 ((operator_info L Result (Target # Args))
                                    \<lparr>op_is_nothrow := expr_noexcept L op_call (Target # Args)\<rparr>)
                                 (call_trait.fields Target Args (length Args))) }
               else op_call_primary Ops
           | None \<Rightarrow> op_call_primary Ops))"

definition op_call_trait :: "lang \<Rightarrow> kind \<Rightarrow> kind list \<Rightarrow> call_trait option" where
  "op_call_trait L Target Args = op_call_impl L (Target # Args) Void"

text \<open>A fragment of C++ on which the traits are evaluated: \<open>++x\<close> on an \<open>int&\<close> is an \<open>int&\<close>,
  calling an \<open>R (*)(Ps...)\<close> with arguments of kinds \<open>Ps...\<close> is an \<open>R\<close>, every kind converts
  to itself and \<open>int&\<close> converts to \<open>int\<close> (but \<open>int\<close> does not convert to \<open>int&\<close>).\<close>

definition cxx_fragment :: lang where
  "cxx_fragment =
     \<lparr>std_is_convertible = (\<lambda>From To. From = To \<or> (From = LRef IntT \<and> To = IntT)),
      noexcept_cast = (\<lambda>From To. True),
      expr_t = (\<lambda>name operands.
         (case name of
            op_inc \<Rightarrow> (if operands = [LRef IntT] then Some (LRef IntT) else None)
          | op_call \<Rightarrow> (case operands of
                          FnPtr R Ps # args \<Rightarrow> if args = Ps then Some R else None
                        | _ \<Rightarrow> None)
          | _ \<Rightarrow> None)),
      expr_noexcept = (\<lambda>name operands. True)\<rparr>"

section \<open>Properties\<close>

subsection \<open>Closed forms of the type-level operations\<close>

lemma tuple_cat_impl_concat: "tuple_cat_impl tss = concat tss"
  by (induction tss rule: tuple_cat_impl.induct) simp_all

lemma tuple_flip_impl_rev: "tuple_flip_impl t = rev t"
  by (induction t) (simp_all add: tuple_cat_impl_concat)

lemma tuple_pick_impl_nth:
  "tuple_pick_impl t ns = (if \<forall>n\<in>set ns. n < length t then Some (map (\<lambda>n. t ! n) ns) else None)"
  by (induction ns) (auto simp: tuple_element_t_def tuple_cat_impl_concat)

lemma tuple_dup_impl_replicate: "tuple_dup_impl n t = concat (replicate n t)"
  by (induction n) (simp_all add: tuple_cat_impl_concat)

lemma tuple_skip_impl_drop:
  "tuple_skip_impl n t = (if n \<le> length t then Some (drop n t) else None)"
proof (induction n arbitrary: t)
  case 0
  show ?case by simp
next
  case (Suc n)
  show ?case by (cases t) (simp_all add: Suc.IH)
qed

lemma tuple_take_impl_take:
  "tuple_take_impl n t = (if n \<le> length t then Some (take n t) else None)"
proof (induction n arbitrary: t)
  case 0
  show ?case by simp
next
  case (Suc n)
  show ?case by (cases t) (simp_all add: Suc.IH tuple_cat_impl_concat)
qed

lemma tuple_slice_t_take_drop:
  "tuple_slice_t start len t =
     (if start + len \<le> length t then Some (take len (drop start t)) else None)"
  by (auto simp: tuple_slice_t_def tuple_skip_t_def tuple_take_t_def tuple_skip_impl_drop
      tuple_take_impl_take)

subsection \<open>Closed forms of the value-level operations\<close>

lemma pick_f_nth:
  "pick_f ns t = (if \<forall>n\<in>set ns. n < length t then Some (map (\<lambda>n. t ! n) ns) else None)"
  by (induction ns)
    (auto simp: tuple_element_t_def kinds_of_def std_get_def std_tuple1_def std_tuple_cat_def)

lemma flip_f_N_rev:
  "flip_f_N t n = (if n \<le> length t then Some (rev (take n t)) else None)"
  by (induction n)
    (auto simp: tuple_element_t_def kinds_of_def std_get_def std_tuple1_def std_tuple_cat_def
      take_Suc_conv_app_nth)


lemma map_nth_window:
  "a + n \<le> length t \<Longrightarrow> map (\<lambda>i. t ! i) [a..<a + n] = take n (drop a t)"
  by (rule nth_equalityI) auto

lemma pick_f_window:
  "pick_f [a..<a + n] t = (if n = 0 \<or> a + n \<le> length t then Some (take n (drop a t)) else None)"
proof (cases "n = 0 \<or> a + n \<le> length t")
  case True
  then show ?thesis
  proof
    assume "n = 0"
    then show ?thesis by simp
  next
    assume le: "a + n \<le> length t"
    then have "\<forall>i\<in>set [a..<a + n]. i < length t" by auto
    with le show ?thesis by (simp add: pick_f_nth map_nth_window del: set_upt)
  qed
next
  case False
  then have "a + n - 1 \<in> set [a..<a + n]" and "\<not> a + n - 1 < length t" by auto
  then have "\<not> (\<forall>i\<in>set [a..<a + n]. i < length t)" by blast
  with False show ?thesis by (simp add: pick_f_nth del: set_upt)
qed

lemma make_index_range_upt:
  assumes "start + len \<le> SIZE_MOD"
  shows "make_index_range start len = [start..<start + len]"
proof -
  have "map (\<lambda>n. (n + start) mod SIZE_MOD) [0..<len] = map (\<lambda>n. n + start) [0..<len]"
    using assms by (intro map_cong) auto
  also have "\<dots> = [start..<start + len]"
    by (simp add: map_add_upt add.commute)
  finally show ?thesis
    by (simp add: make_index_range_def shift_index_sequence_t_def map_index_sequence_t_def
        make_index_sequence_def shift_index_impl_def [abs_def] size_t_add_def)
qed

lemma take_f_take:
  "take_f n t = (if n \<le> length t then Some (take n t) else None)"
  using pick_f_window [of 0 n t] by (auto simp: take_f_def make_index_sequence_def)

lemma slice_f_take_drop:
  assumes "start + len \<le> SIZE_MOD"
  shows "slice_f start len t =
     (if len = 0 \<or> start + len \<le> length t then Some (take len (drop start t)) else None)"
  by (simp add: slice_f_def make_index_range_upt [OF assms] pick_f_window)

lemma skip_f_drop:
  assumes "n < SIZE_MOD" and "length t < SIZE_MOD"
  shows "skip_f n t = (if n \<le> length t then Some (drop n t) else None)"
proof (cases "n \<le> length t")
  case True
  then have e: "length t + SIZE_MOD - n = (length t - n) + SIZE_MOD" by simp
  have "(length t + SIZE_MOD - n) mod SIZE_MOD = (length t - n) mod SIZE_MOD"
    by (simp only: e mod_add_self2)
  also have "\<dots> = length t - n" using assms by simp
  finally have sub: "size_t_sub (tuple_size_v t) n = length t - n"
    using assms by (simp add: size_t_sub_def tuple_size_v_def)
  have "n + (length t - n) \<le> SIZE_MOD" using True assms by simp
  from make_index_range_upt [OF this] True show ?thesis
    using pick_f_window [of n "length t - n" t] by (simp add: skip_f_def sub)
next
  case False
  define L where "L = size_t_sub (tuple_size_v t) n"
  from False assms have "length t + SIZE_MOD - n < SIZE_MOD" by simp
  with assms have "L = length t + SIZE_MOD - n"
    by (simp add: L_def size_t_sub_def tuple_size_v_def)
  with False assms have "0 < L" by simp
  then obtain m where L: "L = Suc m" by (cases L) auto
  have "[0..<Suc m] = 0 # [1..<Suc m]" by (simp add: upt_conv_Cons del: upt_Suc)
  then have "make_index_range n L = n # map (shift_index_impl n) [1..<Suc m]"
    using assms(1)
    by (simp add: L make_index_range_def shift_index_sequence_t_def map_index_sequence_t_def
        make_index_sequence_def shift_index_impl_def size_t_add_def del: upt_Suc)
  with False show ?thesis
    by (simp add: skip_f_def L_def [symmetric] tuple_element_t_def kinds_of_def)
qed




lemma flip_f_call_Lvalue: "flip_f_call Lvalue t = None"
  by (simp add: flip_f_call_def)

lemma pick_f_call_Rvalue: "pick_f_call Rvalue ns t = pick_f ns t"
  by (simp add: pick_f_call_def)

subsection \<open>Value level against type level\<close>




subsection \<open>Ownership and storage identity\<close>

lemma wf_reference_storage:
  assumes "wf_elem e" and "is_reference (fst e)"
  shows "\<exists>a. e = (fst e, At a) \<and> storage e = Some a"
proof (cases e)
  case (Pair k p)
  with assms show ?thesis by (cases p) auto
qed

text \<open>
  Claim C2. When the picked positions of a tuple hold references, \<open>pick_f\<close> returns a tuple
  whose elements have the kinds of the selected elements and alias the very storage they
  alias: every occurrence of an index in the pick list yields a reference to the one address
  of that input element, so two occurrences of the same index alias each other.
\<close>

theorem pick_f_preserves_storage:
  assumes "\<forall>n\<in>set ns. n < length t \<and> is_reference (fst (t ! n)) \<and> wf_elem (t ! n)"
  shows "\<exists>r. pick_f ns t = Some r \<and> length r = length ns
           \<and> (\<forall>j<length ns. fst (r ! j) = fst (t ! (ns ! j))
                  \<and> (\<exists>a. storage (r ! j) = Some a \<and> storage (t ! (ns ! j)) = Some a))
           \<and> (\<forall>j<length ns. \<forall>j'<length ns. ns ! j = ns ! j' \<longrightarrow> storage (r ! j) = storage (r ! j'))"
proof -
  from assms have "pick_f ns t = Some (map (\<lambda>n. t ! n) ns)"
    by (simp add: pick_f_nth)
  moreover have "\<exists>a. storage (t ! (ns ! j)) = Some a" if "j < length ns" for j
  proof -
    from that have "ns ! j \<in> set ns" by simp
    with assms have "wf_elem (t ! (ns ! j))" and "is_reference (fst (t ! (ns ! j)))"
      by blast+
    from wf_reference_storage [OF this] show ?thesis by blast
  qed
  ultimately show ?thesis by simp
qed

theorem pick_f_preserves_storage_witness:
  "\<exists>r. pick_f [1, 1, 0] [(RRef IntT, At 10), (RRef IntT, At 11)] = Some r
         \<and> length r = 3 \<and> fst (r ! 0) = RRef IntT \<and> fst (r ! 1) = RRef IntT
         \<and> storage (r ! 0) = Some 11 \<and> storage (r ! 1) = Some 11
         \<and> storage (r ! 2) = Some 10"
proof -
  let ?t = "[(RRef IntT, At 10), (RRef IntT, At 11)]"
  have h: "\<forall>n\<in>set [1, 1, 0]. n < length ?t \<and> is_reference (fst (?t ! n)) \<and> wf_elem (?t ! n)"
    by simp
  from pick_f_preserves_storage [OF h] obtain r where
    r: "pick_f [1, 1, 0] ?t = Some r" "length r = length [1, 1, 0::nat]"
    and s: "\<forall>j<length [1, 1, 0::nat]. fst (r ! j) = fst (?t ! ([1, 1, 0] ! j))
              \<and> (\<exists>a. storage (r ! j) = Some a \<and> storage (?t ! ([1, 1, 0] ! j)) = Some a)"
    by blast
  from s [rule_format, of 0] have "fst (r ! 0) = RRef IntT \<and> storage (r ! 0) = Some 11"
    by auto
  moreover from s [rule_format, of 1] have "fst (r ! 1) = RRef IntT \<and> storage (r ! 1) = Some 11"
    by auto
  moreover from s [rule_format, of 2] have "storage (r ! 2) = Some 10" by auto
  ultimately show ?thesis using r by simp
qed

subsection \<open>Reduce and fold as left folds\<close>

lemma foldl_pure_fn:
  "foldl (\<lambda>(acc, s') y. pure_fn f acc y s') (a, s) xs = (foldl f a xs, s)"
  by (induction xs arbitrary: a) (simp_all add: pure_fn_def)

lemma foldl_counted:
  "foldl (\<lambda>(acc, c) y. counted f acc y c) (a, n) xs = (foldl f a xs, n + length xs)"
  by (induction xs arbitrary: a n) (simp_all add: counted_def)

lemma take_Suc_tl:
  "Suc n < length t \<Longrightarrow> take (Suc n) (tl t) = take n (tl t) @ [t ! Suc n]"
  by (simp add: take_Suc_conv_app_nth nth_tl)

lemma reduce_impl_foldl:
  "n < length t \<Longrightarrow>
   reduce_impl (Suc n) fn t s =
     Some (foldl (\<lambda>(acc, s') y. fn acc y s') (t ! 0, s) (take n (tl t)))"
proof (induction n)
  case 0
  then show ?case by (simp add: std_get_def)
next
  case (Suc n)
  then show ?case
    by (simp add: std_get_def take_Suc_tl split: prod.splits)
qed

lemma reduce_f_foldl:
  assumes "t \<noteq> []"
  shows "reduce_f fn t s = Some (foldl (\<lambda>(acc, s') y. fn acc y s') (hd t, s) (tl t))"
proof -
  from assms obtain x xs where t: "t = x # xs" by (cases t) auto
  have "reduce_impl (Suc (length xs)) fn t s =
        Some (foldl (\<lambda>(acc, s') y. fn acc y s') (t ! 0, s) (take (length xs) (tl t)))"
    by (rule reduce_impl_foldl) (simp add: t)
  then show ?thesis by (simp add: reduce_f_def tuple_size_v_def t)
qed

lemma fold_impl_foldl:
  "n \<le> length t \<Longrightarrow>
   fold_impl n fn init t s = Some (foldl (\<lambda>(acc, s') y. fn acc y s') (init, s) (take n t))"
proof (induction n)
  case 0
  then show ?case by simp
next
  case (Suc n)
  then show ?case
    by (simp add: std_get_def take_Suc_conv_app_nth split: prod.splits)
qed

lemma fold_f_foldl:
  "fold_f fn init t s = Some (foldl (\<lambda>(acc, s') y. fn acc y s') (init, s) t)"
  by (simp add: fold_f_def tuple_size_v_def fold_impl_foldl)

lemma tuple_reduce_impl_foldl:
  "n < length t \<Longrightarrow>
   tuple_reduce_impl Fn (Suc n) t = Some (foldl Fn (t ! 0) (take n (tl t)))"
proof (induction n)
  case 0
  then show ?case by (simp add: tuple_element_t_def)
next
  case (Suc n)
  then show ?case by (simp add: tuple_element_t_def take_Suc_tl)
qed

lemma tuple_reduce_t_foldl:
  assumes "t \<noteq> []"
  shows "tuple_reduce_t Fn t = Some (foldl Fn (hd t) (tl t))"
proof -
  from assms obtain x xs where t: "t = x # xs" by (cases t) auto
  have "tuple_reduce_impl Fn (Suc (length xs)) t =
        Some (foldl Fn (t ! 0) (take (length xs) (tl t)))"
    by (rule tuple_reduce_impl_foldl) (simp add: t)
  then show ?thesis by (simp add: tuple_reduce_t_def tuple_size_v_def t)
qed

text \<open>
  Claim C3. On a tuple of length at least 1, \<open>reduce\<close> is the left-associative combination
  \<open>fn(fn(fn(t[0], t[1]), t[2]), ...)\<close>, threading the effects of \<open>fn\<close> from left to right and
  calling it \<open>length t - 1\<close> times; on a 1-tuple it returns the element and leaves the state
  as it was, whatever \<open>fn\<close> is, so \<open>fn\<close> is not called. Subtraction over \<open>(1, 2, 3)\<close> gives
  \<open>-4\<close>. The type-level \<open>tuple_reduce_t\<close> is the same left fold over kinds.
\<close>

theorem reduce_left_associative:
  assumes "t \<noteq> []" and "ks \<noteq> []"
  shows "reduce_f fn t s = Some (foldl (\<lambda>(acc, s') y. fn acc y s') (hd t, s) (tl t))
       \<and> reduce_f (pure_fn f) t s = Some (foldl f (hd t) (tl t), s)
       \<and> reduce_f (counted f) t 0 = Some (foldl f (hd t) (tl t), length t - 1)
       \<and> reduce_f fn [x] s = Some (x, s)
       \<and> reduce_f (pure_fn std_minus) [1, 2, 3] s = Some (- 4, s)
       \<and> tuple_reduce_t Fn ks = Some (foldl Fn (hd ks) (tl ks))
       \<and> tuple_reduce_t Fn [k] = Some k"
proof (intro conjI)
  show "reduce_f fn t s = Some (foldl (\<lambda>(acc, s') y. fn acc y s') (hd t, s) (tl t))"
    using assms(1) by (rule reduce_f_foldl)
  show "reduce_f (pure_fn f) t s = Some (foldl f (hd t) (tl t), s)"
    by (simp add: reduce_f_foldl [OF assms(1)] foldl_pure_fn)
  show "reduce_f (counted f) t 0 = Some (foldl f (hd t) (tl t), length t - 1)"
    by (simp add: reduce_f_foldl [OF assms(1)] foldl_counted)
  show "reduce_f fn [x] s = Some (x, s)"
    by (simp add: reduce_f_foldl)
  show "reduce_f (pure_fn std_minus) [1, 2, 3] s = Some (- 4, s)"
    by (simp add: reduce_f_foldl pure_fn_def std_minus_def)
  show "tuple_reduce_t Fn ks = Some (foldl Fn (hd ks) (tl ks))"
    using assms(2) by (rule tuple_reduce_t_foldl)
  show "tuple_reduce_t Fn [k] = Some k"
    by (simp add: tuple_reduce_t_foldl)
qed

theorem reduce_left_associative_witness:
  "[5, 3, 1 :: int] \<noteq> [] \<and> [IntT, LRef IntT, RRef IntT] \<noteq> []
   \<and> reduce_f (counted std_minus) [5, 3, 1] 0 = Some (1, 2)
   \<and> tuple_reduce_t (\<lambda>a b. Tuple [a, b]) [IntT, LRef IntT, RRef IntT]
       = Some (Tuple [Tuple [IntT, LRef IntT], RRef IntT])"
  using reduce_left_associative [where t = "[5, 3, 1 :: int]"
      and ks = "[IntT, LRef IntT, RRef IntT]" and f = std_minus
      and Fn = "\<lambda>a b. Tuple [a, b]" and fn = "counted std_minus" and s = "0 :: nat"
      and x = 0 and k = IntT]
  by (simp add: counted_def std_minus_def)

text \<open>
  Claim C4. \<open>fold(fn, init, t)\<close> equals \<open>reduce(fn, tuple_cat(make_tuple(init), t))\<close>, result
  and effects alike; folding the empty tuple returns \<open>init\<close> with the state untouched, so
  \<open>fn\<close> is never called. At the type level \<open>tuple_fold_t\<close> is \<open>tuple_reduce_t\<close> of the
  concatenation, the left fold from \<open>Init\<close>.
\<close>

theorem fold_is_reduce_of_concat:
  "fold_f fn init t s = reduce_f fn (std_tuple_cat (std_make_tuple [init]) t) s
   \<and> fold_f fn init t s = Some (foldl (\<lambda>(acc, s') y. fn acc y s') (init, s) t)
   \<and> fold_f fn init [] s = Some (init, s)
   \<and> fold_f (counted f) init [] 0 = Some (init, 0)
   \<and> fold_f (pure_fn std_minus) 6 [1, 2, 3] s = Some (0, s)
   \<and> tuple_fold_t Fn Init ks = tuple_reduce_t Fn (tuple_cat_t [[Init], ks])
   \<and> tuple_fold_t Fn Init ks = Some (foldl Fn Init ks)
   \<and> tuple_fold_t Fn Init [] = Some Init"
proof (intro conjI)
  show "fold_f fn init t s = reduce_f fn (std_tuple_cat (std_make_tuple [init]) t) s"
    by (simp add: fold_f_foldl reduce_f_foldl std_tuple_cat_def std_make_tuple_def)
  show "fold_f fn init t s = Some (foldl (\<lambda>(acc, s') y. fn acc y s') (init, s) t)"
    by (rule fold_f_foldl)
  show "fold_f fn init [] s = Some (init, s)"
    by (simp add: fold_f_foldl)
  show "fold_f (counted f) init [] 0 = Some (init, 0)"
    by (simp add: fold_f_foldl)
  show "fold_f (pure_fn std_minus) 6 [1, 2, 3] s = Some (0, s)"
    by (simp add: fold_f_foldl pure_fn_def std_minus_def)
  show "tuple_fold_t Fn Init ks = tuple_reduce_t Fn (tuple_cat_t [[Init], ks])"
    by (simp add: tuple_fold_t_def)
  show "tuple_fold_t Fn Init ks = Some (foldl Fn Init ks)"
    by (simp add: tuple_fold_t_def tuple_cat_t_def tuple_reduce_t_foldl)
  show "tuple_fold_t Fn Init [] = Some Init"
    by (simp add: tuple_fold_t_def tuple_cat_t_def tuple_reduce_t_foldl)
qed

subsection \<open>Slice, take and skip\<close>

text \<open>
  Claim C5, as amended. For \<open>start + len\<close> within the tuple, \<open>slice<start, len>\<close> equals
  \<open>take<len>\<close> of \<open>skip<start>\<close>, namely the \<open>len\<close> elements from position \<open>start\<close>, both for the
  value-level \<open>slice_f\<close> (an index range handed to \<open>pick_f\<close>, for tuples whose size is a
  \<open>std::size_t\<close>) and for the type-level \<open>tuple_slice_t\<close>. A slice of length 0 is the empty
  tuple regardless of the start at the value level; at the type level it is the empty tuple
  for every start up to the size of the tuple and ill-formed for a start past the end.
\<close>

theorem slice_is_take_of_skip:
  assumes "start + len \<le> length t" and "length t < SIZE_MOD" and "start + len \<le> length ks"
  shows "slice_f start len t = Option.bind (skip_f start t) (take_f len)
       \<and> slice_f start len t = Some (take len (drop start t))
       \<and> slice_f start0 0 t0 = Some []
       \<and> tuple_slice_t start len ks = Option.bind (tuple_skip_t start ks) (tuple_take_t len)
       \<and> tuple_slice_t start len ks = Some (take len (drop start ks))
       \<and> tuple_slice_t start0 0 ks0 = (if start0 \<le> length ks0 then Some [] else None)"
proof -
  from assms have b: "start + len \<le> SIZE_MOD" "start < SIZE_MOD"
    by simp_all
  have sl: "slice_f start len t = Some (take len (drop start t))"
    using assms(1) by (simp add: slice_f_take_drop [OF b(1)])
  have sk: "skip_f start t = Some (drop start t)"
    using assms(1) by (simp add: skip_f_drop [OF b(2) assms(2)])
  have tk: "take_f len (drop start t) = Some (take len (drop start t))"
    using assms(1) by (simp add: take_f_take)
  have s0: "slice_f start0 0 t0 = Some []"
    by (simp add: slice_f_def make_index_range_def shift_index_sequence_t_def
        map_index_sequence_t_def make_index_sequence_def)
  have tsl: "tuple_slice_t start len ks = Some (take len (drop start ks))"
    using assms(3) by (simp add: tuple_slice_t_take_drop)
  have ts0: "tuple_slice_t start0 0 ks0 = (if start0 \<le> length ks0 then Some [] else None)"
    by (simp add: tuple_slice_t_take_drop)
  have tdef: "tuple_slice_t start len ks = Option.bind (tuple_skip_t start ks) (tuple_take_t len)"
    by (simp add: tuple_slice_t_def)
  from sl sk tk s0 tsl ts0 tdef show ?thesis by simp
qed

theorem slice_is_take_of_skip_witness:
  "1 + 1 \<le> length [(IntT, Stored 1), (IntT, Stored 2), (IntT, Stored 3)]
   \<and> length [(IntT, Stored 1), (IntT, Stored 2), (IntT, Stored 3)] < SIZE_MOD
   \<and> 1 + 1 \<le> length [IntT, LRef IntT, RRef IntT]
   \<and> slice_f 1 1 [(IntT, Stored 1), (IntT, Stored 2), (IntT, Stored 3)] = Some [(IntT, Stored 2)]
   \<and> slice_f 7 0 [(IntT, Stored 1)] = Some []
   \<and> tuple_slice_t 1 1 [IntT, LRef IntT, RRef IntT] = Some [LRef IntT]
   \<and> tuple_slice_t 2 0 [IntT, LRef IntT, RRef IntT] = Some []"
proof -
  let ?t = "[(IntT, Stored 1), (IntT, Stored 2), (IntT, Stored 3)]"
  let ?ks = "[IntT, LRef IntT, RRef IntT]"
  have h1: "1 + 1 \<le> length ?t" by simp
  have h2: "length ?t < SIZE_MOD" by (simp add: SIZE_MOD_def)
  have h3: "1 + 1 \<le> length ?ks" by simp
  note w = slice_is_take_of_skip [OF h1 h2 h3, where ?start0.0 = 7 and ?t0.0 = "[(IntT, Stored 1)]"
      and ?ks0.0 = ?ks]
  note w' = slice_is_take_of_skip [OF h1 h2 h3, where ?start0.0 = 2 and ?t0.0 = "[(IntT, Stored 1)]"
      and ?ks0.0 = ?ks]
  from w have "slice_f 1 1 ?t = Some (take 1 (drop 1 ?t))" by blast
  moreover from w have "tuple_slice_t 1 1 ?ks = Some (take 1 (drop 1 ?ks))" by blast
  moreover from w have "slice_f 7 0 [(IntT, Stored 1)] = Some []" by blast
  moreover from w' have "tuple_slice_t 2 0 ?ks = (if 2 \<le> length ?ks then Some [] else None)"
    by blast
  ultimately show ?thesis using h1 h2 h3 by simp
qed

text \<open>The claim as first stated, that a slice of length 0 is empty regardless of the start
  in both forms, fails at the type level: \<open>tuple_slice_t<4, 0, std::tuple<int, int&, int&&>>\<close>
  is ill-formed, because \<open>tuple_skip_t<4, ...>\<close> is.\<close>

theorem slice_is_take_of_skip_counterexample:
  "tuple_slice_t 4 0 [IntT, LRef IntT, RRef IntT] = None
   \<and> tuple_slice_t 4 0 [IntT, LRef IntT, RRef IntT] \<noteq> Some []
   \<and> slice_f 4 0 [(IntT, Stored 1), (LRef IntT, At 7), (RRef IntT, At 8)] = Some []"
  by (simp add: tuple_slice_t_take_drop slice_f_def make_index_range_def
      shift_index_sequence_t_def map_index_sequence_t_def make_index_sequence_def)

text \<open>In general, past the end and with length 0 the two forms part.\<close>

lemma slice_beyond_size:
  assumes "length t < start"
  shows "slice_f start 0 t = Some []" and "tuple_slice_t start 0 (kinds_of t) = None"
  using assms
  by (simp_all add: slice_f_def make_index_range_def shift_index_sequence_t_def
      map_index_sequence_t_def make_index_sequence_def tuple_slice_t_take_drop kinds_of_def)

subsection \<open>Detection\<close>

lemma tuple_skip_alias_tuple:
  "tuple_skip_alias n [Tuple ts] =
     (if n \<le> length ts then Well_formed (Tuple (drop n ts)) else Hard_error)"
  by (simp add: tuple_skip_t_def tuple_skip_impl_drop)

text \<open>
  Claim C6, as amended. When instantiating \<open>Op\<close> with \<open>Args...\<close> is well-formed or fails in the
  immediate context of the substitution, \<open>is_detected<Op, Args...>\<close> is true exactly when it
  is well-formed and \<open>detected_or_t<Default, Op, Args...>\<close> is its result kind when
  well-formed and \<open>Default\<close> otherwise: such a failure is an observable false/default
  outcome. When the instantiation fails outside the immediate context, neither query has a
  value: the translation unit does not compile. An alias over the library's own
  \<open>tuple_skip_t<N, T>\<close> shows all three outcomes.
\<close>

theorem detection_is_well_formedness:
  "(Op Args \<noteq> Hard_error \<longrightarrow>
      is_detected Op Args = Some (\<exists>r. Op Args = Well_formed r)
      \<and> detected_or_t Default Op Args
           = Some (case Op Args of Well_formed r \<Rightarrow> r | _ \<Rightarrow> Default))
   \<and> (Op Args = Hard_error \<longrightarrow>
      is_detected Op Args = None \<and> detected_or_t Default Op Args = None)
   \<and> is_detected (tuple_skip_alias n) [Tuple ts] = (if n \<le> length ts then Some True else None)
   \<and> detected_or_t Default (tuple_skip_alias n) [Tuple ts]
        = (if n \<le> length ts then Some (Tuple (drop n ts)) else None)
   \<and> is_detected (tuple_skip_alias n) [] = Some False
   \<and> detected_or_t Default (tuple_skip_alias n) [] = Some Default"
proof (intro conjI impI)
  assume "Op Args \<noteq> Hard_error"
  then show "is_detected Op Args = Some (\<exists>r. Op Args = Well_formed r)"
    by (cases "Op Args") (simp_all add: is_detected_def detect_impl_def void_t_def)
next
  assume "Op Args \<noteq> Hard_error"
  then show "detected_or_t Default Op Args
               = Some (case Op Args of Well_formed r \<Rightarrow> r | _ \<Rightarrow> Default)"
    by (cases "Op Args") (simp_all add: detected_or_t_def detect_impl_def void_t_def)
next
  assume "Op Args = Hard_error"
  then show "is_detected Op Args = None"
    by (simp add: is_detected_def detect_impl_def)
next
  assume "Op Args = Hard_error"
  then show "detected_or_t Default Op Args = None"
    by (simp add: detected_or_t_def detect_impl_def)
next
  show "is_detected (tuple_skip_alias n) [Tuple ts] = (if n \<le> length ts then Some True else None)"
    by (simp add: is_detected_def detect_impl_def void_t_def tuple_skip_t_def
        tuple_skip_impl_drop)
next
  show "detected_or_t Default (tuple_skip_alias n) [Tuple ts]
          = (if n \<le> length ts then Some (Tuple (drop n ts)) else None)"
    by (simp add: detected_or_t_def detect_impl_def void_t_def tuple_skip_t_def
        tuple_skip_impl_drop)
next
  show "is_detected (tuple_skip_alias n) [] = Some False"
    by (simp add: is_detected_def detect_impl_def)
next
  show "detected_or_t Default (tuple_skip_alias n) [] = Some Default"
    by (simp add: detected_or_t_def detect_impl_def)
qed

theorem detection_is_well_formedness_witness:
  "tuple_skip_alias 1 [Tuple [IntT, CharT]] \<noteq> Hard_error
   \<and> is_detected (tuple_skip_alias 1) [Tuple [IntT, CharT]] = Some True
   \<and> detected_or_t Void (tuple_skip_alias 1) [Tuple [IntT, CharT]] = Some (Tuple [CharT])
   \<and> tuple_skip_alias 1 [IntT, CharT] \<noteq> Hard_error
   \<and> is_detected (tuple_skip_alias 1) [IntT, CharT] = Some False
   \<and> detected_or_t Void (tuple_skip_alias 1) [IntT, CharT] = Some Void"
proof -
  have h1: "tuple_skip_alias 1 [Tuple [IntT, CharT]] \<noteq> Hard_error"
    by (simp add: tuple_skip_t_def tuple_skip_impl_drop)
  have h2: "tuple_skip_alias 1 [IntT, CharT] \<noteq> Hard_error"
    by simp
  note w1 = detection_is_well_formedness [where Op = "tuple_skip_alias 1"
      and Args = "[Tuple [IntT, CharT]]" and Default = Void and n = 1 and ts = "[IntT, CharT]"]
  note w2 = detection_is_well_formedness [where Op = "tuple_skip_alias 1"
      and Args = "[IntT, CharT]" and Default = Void and n = 1 and ts = "[IntT, CharT]"]
  from w1 h1 have "is_detected (tuple_skip_alias 1) [Tuple [IntT, CharT]]
      = Some (\<exists>r. tuple_skip_alias 1 [Tuple [IntT, CharT]] = Well_formed r)"
    and "detected_or_t Void (tuple_skip_alias 1) [Tuple [IntT, CharT]]
      = Some (case tuple_skip_alias 1 [Tuple [IntT, CharT]] of Well_formed r \<Rightarrow> r | _ \<Rightarrow> Void)"
    by blast+
  moreover from w2 h2 have "is_detected (tuple_skip_alias 1) [IntT, CharT]
      = Some (\<exists>r. tuple_skip_alias 1 [IntT, CharT] = Well_formed r)"
    and "detected_or_t Void (tuple_skip_alias 1) [IntT, CharT]
      = Some (case tuple_skip_alias 1 [IntT, CharT] of Well_formed r \<Rightarrow> r | _ \<Rightarrow> Void)"
    by blast+
  ultimately show ?thesis using h1 h2 by (simp add: tuple_skip_t_def tuple_skip_impl_drop)
qed

text \<open>The claim as first stated, that a query that is not well-formed is always answered
  with false or the default and never with a compilation error, fails for
  \<open>is_detected<skip_4, std::tuple<int>>\<close>: \<open>tuple_skip_t<4, std::tuple<int>>\<close> is not
  well-formed, and the query is an error rather than false.\<close>

theorem detection_is_well_formedness_counterexample:
  "tuple_skip_alias 4 [Tuple [IntT]] = Hard_error
   \<and> is_detected (tuple_skip_alias 4) [Tuple [IntT]] \<noteq> Some False
   \<and> is_detected (tuple_skip_alias 4) [Tuple [IntT]] = None
   \<and> detected_or_t Void (tuple_skip_alias 4) [Tuple [IntT]] \<noteq> Some Void
   \<and> detected_or_t Void (tuple_skip_alias 4) [Tuple [IntT]] = None"
  by (simp add: is_detected_def detected_or_t_def detect_impl_def tuple_skip_t_def
      tuple_skip_impl_drop)

subsection \<open>First and find\<close>

lemma shift_lower_bound:
  assumes "\<not> P k"
  shows "(Suc k \<le> i \<and> i < n \<and> P i \<and> (\<forall>j. Suc k \<le> j \<and> j < i \<longrightarrow> \<not> P j))
       \<longleftrightarrow> (k \<le> i \<and> i < n \<and> P i \<and> (\<forall>j. k \<le> j \<and> j < i \<longrightarrow> \<not> P j))"
proof
  assume l: "Suc k \<le> i \<and> i < n \<and> P i \<and> (\<forall>j. Suc k \<le> j \<and> j < i \<longrightarrow> \<not> P j)"
  have "\<not> P j" if "k \<le> j \<and> j < i" for j
  proof (cases "j = k")
    case True
    with assms show ?thesis by simp
  next
    case False
    with that have "Suc k \<le> j \<and> j < i" by simp
    with l show ?thesis by blast
  qed
  with l show "k \<le> i \<and> i < n \<and> P i \<and> (\<forall>j. k \<le> j \<and> j < i \<longrightarrow> \<not> P j)" by simp
next
  assume r: "k \<le> i \<and> i < n \<and> P i \<and> (\<forall>j. k \<le> j \<and> j < i \<longrightarrow> \<not> P j)"
  with assms have "i \<noteq> k" by blast
  with r have "Suc k \<le> i" by simp
  with r show "Suc k \<le> i \<and> i < n \<and> P i \<and> (\<forall>j. Suc k \<le> j \<and> j < i \<longrightarrow> \<not> P j)" by simp
qed

lemma first_impl_Some:
  "to_optional (first_impl k pred t) = Some i \<longleftrightarrow>
     k \<le> i \<and> i < length t \<and> pred (t ! i) \<and> (\<forall>j. k \<le> j \<and> j < i \<longrightarrow> \<not> pred (t ! j))"
proof (induction k pred t rule: first_impl.induct)
  case (1 Offset pred t)
  show ?case
  proof (cases "tuple_size_v t \<le> Offset")
    case True
    then show ?thesis
      by (subst first_impl.simps) (auto simp: tuple_size_v_def)
  next
    case False
    show ?thesis
    proof (cases "pred (t ! Offset)")
      case True
      have "to_optional (first_impl Offset pred t) = Some Offset"
        using False True by (subst first_impl.simps) simp
      moreover have "Offset = i \<longleftrightarrow> Offset \<le> i \<and> i < length t \<and> pred (t ! i)
          \<and> (\<forall>j. Offset \<le> j \<and> j < i \<longrightarrow> \<not> pred (t ! j))"
      proof
        assume "Offset = i"
        with False True show "Offset \<le> i \<and> i < length t \<and> pred (t ! i)
          \<and> (\<forall>j. Offset \<le> j \<and> j < i \<longrightarrow> \<not> pred (t ! j))"
          by (auto simp: tuple_size_v_def)
      next
        assume r: "Offset \<le> i \<and> i < length t \<and> pred (t ! i)
          \<and> (\<forall>j. Offset \<le> j \<and> j < i \<longrightarrow> \<not> pred (t ! j))"
        show "Offset = i"
        proof (rule ccontr)
          assume "Offset \<noteq> i"
          with r have "Offset \<le> Offset \<and> Offset < i" by simp
          with r True show False by blast
        qed
      qed
      ultimately show ?thesis by simp
    next
      case np: False
      have "to_optional (first_impl Offset pred t) = to_optional (first_impl (Offset + 1) pred t)"
        using False np by (subst first_impl.simps) simp
      also have "\<dots> = Some i \<longleftrightarrow>
          Suc Offset \<le> i \<and> i < length t \<and> pred (t ! i)
          \<and> (\<forall>j. Suc Offset \<le> j \<and> j < i \<longrightarrow> \<not> pred (t ! j))"
        using "1.IH" [OF False np] by simp
      also have "\<dots> \<longleftrightarrow> Offset \<le> i \<and> i < length t \<and> pred (t ! i)
          \<and> (\<forall>j. Offset \<le> j \<and> j < i \<longrightarrow> \<not> pred (t ! j))"
        using np by (rule shift_lower_bound [where P = "\<lambda>i. pred (t ! i)"])
      finally show ?thesis .
    qed
  qed
qed

lemma first_impl_None:
  "to_optional (first_impl k pred t) = None \<longleftrightarrow> (\<forall>j. k \<le> j \<and> j < length t \<longrightarrow> \<not> pred (t ! j))"
proof
  assume n: "to_optional (first_impl k pred t) = None"
  show "\<forall>j. k \<le> j \<and> j < length t \<longrightarrow> \<not> pred (t ! j)"
  proof (intro allI impI)
    fix j
    assume "k \<le> j \<and> j < length t"
    then show "\<not> pred (t ! j)"
    proof (induction j rule: less_induct)
      case (less j)
      show ?case
      proof
        assume p: "pred (t ! j)"
        have "\<forall>j'. k \<le> j' \<and> j' < j \<longrightarrow> \<not> pred (t ! j')"
        proof (intro allI impI)
          fix j'
          assume a: "k \<le> j' \<and> j' < j"
          with less.prems have "k \<le> j' \<and> j' < length t" by simp
          with a show "\<not> pred (t ! j')" using less.IH by blast
        qed
        with p less.prems have "to_optional (first_impl k pred t) = Some j"
          by (simp add: first_impl_Some)
        with n show False by simp
      qed
    qed
  qed
next
  assume a: "\<forall>j. k \<le> j \<and> j < length t \<longrightarrow> \<not> pred (t ! j)"
  show "to_optional (first_impl k pred t) = None"
  proof (cases "to_optional (first_impl k pred t)")
    case None
    then show ?thesis .
  next
    case (Some i)
    then have "k \<le> i \<and> i < length t \<and> pred (t ! i)" by (simp add: first_impl_Some)
    with a show ?thesis by blast
  qed
qed

lemma first_f_Nil: "first_f pred [] = Nullopt_t"
  by (simp add: first_f_def first_impl.simps tuple_size_v_def)

lemma first_f_nonempty: "t \<noteq> [] \<Longrightarrow> first_f pred t = Optional (to_optional (first_f pred t))"
  by (simp add: first_f_def first_impl.simps [of 0] tuple_size_v_def)

lemma first_f_Some:
  "to_optional (first_f pred t) = Some i \<longleftrightarrow> i < length t \<and> pred (t ! i) \<and> (\<forall>j<i. \<not> pred (t ! j))"
  by (simp add: first_f_def first_impl_Some)

lemma first_f_None:
  "to_optional (first_f pred t) = None \<longleftrightarrow> (\<forall>x\<in>set t. \<not> pred x)"
  by (simp add: first_f_def first_impl_None all_set_conv_all_nth)

lemma meta_first_impl_value:
  "ih_value (meta_first_impl Pred k t) = (\<exists>x\<in>set t. Pred x)"
  by (induction t arbitrary: k) simp_all

lemma meta_first_impl_index:
  "ih_value (meta_first_impl Pred k t) \<Longrightarrow>
   \<exists>i. ih_index (meta_first_impl Pred k t) = k + i \<and> i < length t \<and> Pred (t ! i)
       \<and> (\<forall>j<i. \<not> Pred (t ! j))"
proof (induction t arbitrary: k)
  case Nil
  then show ?case by simp
next
  case (Cons h tl)
  show ?case
  proof (cases "Pred h")
    case True
    then show ?thesis by (intro exI [of _ 0]) simp
  next
    case False
    with Cons.prems have "ih_value (meta_first_impl Pred (k + 1) tl)" by simp
    from Cons.IH [OF this] obtain i where
      i: "ih_index (meta_first_impl Pred (k + 1) tl) = k + 1 + i" "i < length tl"
         "Pred (tl ! i)" "\<forall>j<i. \<not> Pred (tl ! j)"
      by blast
    have "\<not> Pred ((h # tl) ! j)" if "j < Suc i" for j
      using that False i(4) by (cases j) simp_all
    then have "\<forall>j<Suc i. \<not> Pred ((h # tl) ! j)" by blast
    with i False show ?thesis by (intro exI [of _ "Suc i"]) simp
  qed
qed

lemma meta_find_value: "ih_value (meta_find T t) = (T \<in> set t)"
  by (auto simp: meta_find_def meta_first_def meta_first_impl_value partial_def std_is_same_def)

lemma meta_first_Nil: "ih_value (meta_first Pred []) = False"
  by (simp add: meta_first_def)

text \<open>
  Claim C9. \<open>first\<close> on the empty tuple reports no match (at the value level and at the
  type level), and the value-level \<open>find(v, S)\<close> returns the smallest index \<open>i\<close> with
  \<open>S[i] == v\<close>, or no match when no element of \<open>S\<close> equals \<open>v\<close>.
\<close>

theorem find_smallest_index:
  "first_f pred [] = Nullopt_t \<and> to_optional (first_f pred []) = None
   \<and> ih_value (meta_first Pred []) = False
   \<and> (to_optional (first_f pred S) = Some i
        \<longleftrightarrow> i < length S \<and> pred (S ! i) \<and> (\<forall>j<i. \<not> pred (S ! j)))
   \<and> (to_optional (find_f v S) = Some i \<longleftrightarrow> i < length S \<and> S ! i = v \<and> (\<forall>j<i. S ! j \<noteq> v))
   \<and> (to_optional (find_f v S) = None \<longleftrightarrow> v \<notin> set S)"
proof (intro conjI)
  show "first_f pred [] = Nullopt_t"
    by (rule first_f_Nil)
  show "to_optional (first_f pred []) = None"
    by (simp add: first_f_Nil)
  show "ih_value (meta_first Pred []) = False"
    by (rule meta_first_Nil)
  show "to_optional (first_f pred S) = Some i
        \<longleftrightarrow> i < length S \<and> pred (S ! i) \<and> (\<forall>j<i. \<not> pred (S ! j))"
    by (rule first_f_Some)
  have "to_optional (find_f v S) = Some i
        \<longleftrightarrow> i < length S \<and> v = S ! i \<and> (\<forall>j<i. \<not> v = S ! j)"
    unfolding find_f_def by (rule first_f_Some)
  also have "\<dots> \<longleftrightarrow> i < length S \<and> S ! i = v \<and> (\<forall>j<i. S ! j \<noteq> v)"
    by (simp add: eq_commute)
  finally show "to_optional (find_f v S) = Some i
        \<longleftrightarrow> i < length S \<and> S ! i = v \<and> (\<forall>j<i. S ! j \<noteq> v)" .
  have "to_optional (find_f v S) = None \<longleftrightarrow> (\<forall>x\<in>set S. \<not> v = x)"
    unfolding find_f_def by (rule first_f_None)
  then show "to_optional (find_f v S) = None \<longleftrightarrow> v \<notin> set S"
    by blast
qed

theorem find_smallest_index_witness:
  "to_optional (find_f (3::int) [1, 2, 3]) = Some 2
   \<and> to_optional (find_f (4::int) [1, 2, 3]) = None"
proof -
  note w3 = find_smallest_index [where S = "[1, 2, 3 :: int]" and i = 2 and v = 3
      and pred = "\<lambda>x. True" and Pred = is_reference]
  note w4 = find_smallest_index [where S = "[1, 2, 3 :: int]" and i = 2 and v = 4
      and pred = "\<lambda>x. True" and Pred = is_reference]
  have "\<forall>j<2. [1, 2, 3 :: int] ! j \<noteq> 3"
    by (simp add: nth_Cons' less_Suc_eq numeral_2_eq_2)
  with w3 have "to_optional (find_f (3::int) [1, 2, 3]) = Some 2" by simp
  moreover from w4 have "to_optional (find_f (4::int) [1, 2, 3]) = None" by simp
  ultimately show ?thesis by simp
qed

text \<open>
  Claim C10. The static result type of \<open>first\<close> and \<open>find\<close> depends on the tuple being empty:
  on the 0-tuple both return \<open>std::nullopt_t\<close>, and on a non-empty tuple both return a
  \<open>std::optional<std::size_t>\<close> that is disengaged exactly when no element matches and
  otherwise holds the index of a matching element.
\<close>

theorem first_result_type:
  assumes "t \<noteq> []"
  shows "first_f pred [] = Nullopt_t \<and> find_f v [] = Nullopt_t
       \<and> (\<exists>r. first_f pred t = Optional r
              \<and> (r = None \<longleftrightarrow> (\<forall>x\<in>set t. \<not> pred x))
              \<and> (\<forall>i. r = Some i \<longrightarrow> i < length t \<and> pred (t ! i)))
       \<and> (\<exists>r. find_f v t = Optional r
              \<and> (r = None \<longleftrightarrow> v \<notin> set t)
              \<and> (\<forall>i. r = Some i \<longrightarrow> i < length t \<and> t ! i = v))"
proof (intro conjI)
  show "first_f pred [] = Nullopt_t" by (rule first_f_Nil)
  show "find_f v [] = Nullopt_t" by (simp add: find_f_def first_f_Nil)
  have shape: "\<exists>r. first_f p t = Optional r
              \<and> (r = None \<longleftrightarrow> (\<forall>x\<in>set t. \<not> p x))
              \<and> (\<forall>i. r = Some i \<longrightarrow> i < length t \<and> p (t ! i))" for p
  proof (intro exI conjI allI impI)
    show "first_f p t = Optional (to_optional (first_f p t))"
      using assms by (rule first_f_nonempty)
    show "to_optional (first_f p t) = None \<longleftrightarrow> (\<forall>x\<in>set t. \<not> p x)"
      by (rule first_f_None)
    fix i
    assume "to_optional (first_f p t) = Some i"
    then show "i < length t" and "p (t ! i)" by (simp_all add: first_f_Some)
  qed
  show "\<exists>r. first_f pred t = Optional r \<and> (r = None \<longleftrightarrow> (\<forall>x\<in>set t. \<not> pred x))
          \<and> (\<forall>i. r = Some i \<longrightarrow> i < length t \<and> pred (t ! i))"
    by (rule shape)
  from shape [of "\<lambda>x. v = x"] obtain r where
    r: "first_f (\<lambda>x. v = x) t = Optional r" "r = None \<longleftrightarrow> (\<forall>x\<in>set t. \<not> v = x)"
       "\<forall>i. r = Some i \<longrightarrow> i < length t \<and> v = t ! i"
    by blast
  from r(2) have "r = None \<longleftrightarrow> v \<notin> set t" by blast
  moreover from r(3) have "\<forall>i. r = Some i \<longrightarrow> i < length t \<and> t ! i = v" by simp
  ultimately show "\<exists>r. find_f v t = Optional r \<and> (r = None \<longleftrightarrow> v \<notin> set t)
          \<and> (\<forall>i. r = Some i \<longrightarrow> i < length t \<and> t ! i = v)"
    using r(1) by (simp add: find_f_def)
qed

theorem first_result_type_witness:
  "[1, 2, 3 :: int] \<noteq> [] \<and> find_f (4::int) [1, 2, 3] = Optional None
   \<and> first_f (\<lambda>x. x > (5::int)) [1, 2, 3] = Optional None"
proof -
  have h: "[1, 2, 3 :: int] \<noteq> []" by simp
  note w = first_result_type [OF h, of "\<lambda>x. x > (5::int)" 4]
  from w obtain r where "first_f (\<lambda>x. x > (5::int)) [1, 2, 3] = Optional r"
    and "r = None \<longleftrightarrow> (\<forall>x\<in>set [1, 2, 3 :: int]. \<not> x > 5)" by blast
  then have 1: "first_f (\<lambda>x. x > (5::int)) [1, 2, 3] = Optional None" by simp
  from w obtain r' where "find_f (4::int) [1, 2, 3] = Optional r'"
    and "r' = None \<longleftrightarrow> 4 \<notin> set [1, 2, 3 :: int]" by blast
  then have 2: "find_f (4::int) [1, 2, 3] = Optional None" by simp
  from h 1 2 show ?thesis by simp
qed

subsection \<open>Operator traits\<close>

lemma is_detected_name_t:
  "is_detected (name_t L name) operands = Some (expr_t L name operands \<noteq> None)"
  by (simp add: is_detected_def detect_impl_def void_t_def name_t_def split: option.splits)

lemma detected_t_name_t:
  "detected_t (name_t L name) operands
     = Some (case expr_t L name operands of Some r \<Rightarrow> r | None \<Rightarrow> Nonesuch)"
  by (simp add: detected_t_def detected_or_t_def detect_impl_def void_t_def name_t_def
      split: option.splits)

lemma has_op_iff: "has_op L name operands = Some (expr_t L name operands \<noteq> None)"
  by (simp add: has_op_def is_detected_name_t)

lemma has_op_call_iff: "has_op_call L T Args = Some (expr_t L op_call (T # Args) \<noteq> None)"
  by (simp add: has_op_call_def is_detected_name_t)

lemma has_op_convertible_iff:
  assumes "\<not> std_is_convertible L Nonesuch To"
  shows "has_op_convertible L To name operands =
     Some (\<exists>r. expr_t L name operands = Some r \<and> std_is_convertible L r To)"
  using assms
  by (simp add: has_op_convertible_def is_detected_convertible_def detected_t_name_t
      split: option.splits)

lemma has_op_nothrow_convertible_iff:
  assumes "\<not> std_is_convertible L Nonesuch To"
  shows "has_op_nothrow_convertible L To name operands =
     Some (\<exists>r. expr_t L name operands = Some r \<and> std_is_convertible L r To
                 \<and> noexcept_cast L r To)"
  using assms
  by (simp add: has_op_nothrow_convertible_def is_detected_nothrow_convertible_def
      std_is_nothrow_convertible_def is_nothrow_convertible_impl_def detected_t_name_t
      split: option.splits)

lemma op_trait_is_detected:
  "op_is_detected (op_trait L name operands) = (expr_t L name operands \<noteq> None)"
  by (simp add: op_trait_def op_struct_def operator_info_def operator_base_def void_t_def
      split: option.splits)

lemma op_trait_is_convertible:
  "op_is_convertible (op_trait L name operands) To =
     (\<exists>r. expr_t L name operands = Some r \<and> std_is_convertible L To r)"
  by (simp add: op_trait_def op_struct_def operator_info_def operator_base_def void_t_def
      split: option.splits)

lemma op_trait_is_nothrow_convertible:
  "op_is_nothrow_convertible (op_trait L name operands) To =
     (\<exists>r. expr_t L name operands = Some r \<and> std_is_convertible L To r \<and> noexcept_cast L To r)"
  by (simp add: op_trait_def op_struct_def operator_info_def operator_base_def void_t_def
      std_is_nothrow_convertible_def is_nothrow_convertible_impl_def split: option.splits)

text \<open>
  Claim C7. The convertibility query of an operator should be true exactly when the operator
  expression is well-formed and its result kind converts to \<open>To\<close>. The \<open>has_op_convertible\<close>
  query does so (for every \<open>To\<close> that \<open>nonesuch\<close> does not convert to), but the \<open>is_convertible\<close> member of the trait struct asks whether \<open>To\<close>
  converts to the result kind: for \<open>++x\<close> on an \<open>int&\<close>, whose result \<open>int&\<close> converts to \<open>int\<close>,
  the query is true and the member (and its nothrow variant) is false.
\<close>

theorem op_trait_is_convertible_reversed:
  "expr_t cxx_fragment op_inc [LRef IntT] = Some (LRef IntT)
   \<and> std_is_convertible cxx_fragment (LRef IntT) IntT
   \<and> has_op_convertible cxx_fragment IntT op_inc [LRef IntT] = Some True
   \<and> op_is_detected (op_trait cxx_fragment op_inc [LRef IntT])
   \<and> op_is_convertible (op_trait cxx_fragment op_inc [LRef IntT]) IntT = False
   \<and> op_is_nothrow_convertible (op_trait cxx_fragment op_inc [LRef IntT]) IntT = False"
  by (simp add: op_trait_is_convertible op_trait_is_nothrow_convertible op_trait_is_detected
      has_op_convertible_def is_detected_convertible_def detected_t_name_t cxx_fragment_def)

lemma op_call_primary_Cons:
  "op_call_primary (Target # Args) =
     Some (operator_trait.extend (operator_base (Target # Args))
             (call_trait.fields Target Args (length Args)))"
  by (simp add: op_call_primary_def tuple_element_t_def tuple_skip_t_def tuple_size_v_def
      numeral_eq_Suc)

lemma op_call_trait_None:
  "op_call_trait L Target Args = None \<longleftrightarrow>
     expr_t L op_call (Target # Args) = Some Void \<and> 2 \<le> length Args"
proof (cases Args)
  case Nil
  then show ?thesis
    by (simp add: op_call_trait_def op_call_impl_def op_call_primary_Cons op_call_impl_id_def
        split: option.splits)
next
  case (Cons a as)
  then show ?thesis
    by (cases as)
      (simp_all add: op_call_trait_def op_call_impl_def op_call_primary_Cons op_call_impl_id_def
        split: option.splits)
qed

lemma op_call_trait_Some:
  assumes "op_call_trait L Target Args = Some tr"
  shows "op_is_detected tr = (expr_t L op_call (Target # Args) = Some Void)"
    and "argument_count tr = length Args"
    and "target_type tr = Target"
    and "argument_types tr = Args"
  using assms
  by (auto simp: op_call_trait_def op_call_impl_def op_call_primary_Cons operator_info_def
      operator_base_def operator_trait.defs call_trait.defs
      split: option.splits if_splits Option.bind_splits)

text \<open>
  Claim C8. The call trait should report detection exactly when calling \<open>Target\<close> with
  \<open>Args...\<close> is well-formed, whatever the call returns. For a function pointer \<open>int (*)()\<close>
  called without arguments the call is well-formed with result \<open>int\<close> and \<open>has_op_call\<close> is
  true, but the trait struct reports \<open>is_detected = false\<close>; its argument count is the number
  of argument kinds.
\<close>

theorem op_call_misses_non_void_calls:
  "expr_t cxx_fragment op_call [FnPtr IntT []] = Some IntT
   \<and> has_op_call cxx_fragment (FnPtr IntT []) [] = Some True
   \<and> map_option op_is_detected (op_call_trait cxx_fragment (FnPtr IntT []) []) = Some False
   \<and> map_option argument_count (op_call_trait cxx_fragment (FnPtr IntT []) []) = Some 0"
  by (simp add: has_op_call_iff op_call_trait_def op_call_impl_def op_call_primary_Cons
      operator_base_def operator_trait.defs call_trait.defs cxx_fragment_def)

subsection \<open>The library's own checks\<close>

text \<open>The static assertions of meta/tuple.h and meta/indices.h, on the model.\<close>

lemma tuple_h_static_assertions:
  "tuple_cat_t [] = ([] :: kind list)"
  "tuple_cat_t [[IntT], [], [IntT, LRef IntT]] = [IntT, IntT, LRef IntT]"
  "tuple_flip_t [] = ([] :: kind list)"
  "tuple_flip_t [IntT] = [IntT]"
  "tuple_flip_t [IntT, LRef IntT, RRef IntT] = [RRef IntT, LRef IntT, IntT]"
  "tuple_pick_t [IntT, LRef IntT, RRef IntT] [] = Some []"
  "tuple_pick_t [IntT, LRef IntT, RRef IntT] [2, 1, 2] = Some [RRef IntT, LRef IntT, RRef IntT]"
  "tuple_dup_t 10 [] = ([] :: kind list)"
  "tuple_dup_t 2 [IntT, LRef IntT, RRef IntT]
     = [IntT, LRef IntT, RRef IntT, IntT, LRef IntT, RRef IntT]"
  "tuple_skip_t 3 [IntT, LRef IntT, RRef IntT] = Some []"
  "tuple_skip_t 2 [IntT, LRef IntT, RRef IntT] = Some [RRef IntT]"
  "tuple_take_t 0 [IntT, LRef IntT, RRef IntT] = Some []"
  "tuple_take_t 2 [IntT, LRef IntT, RRef IntT] = Some [IntT, LRef IntT]"
  "tuple_slice_t 2 0 [IntT, LRef IntT, RRef IntT] = Some []"
  "tuple_slice_t 1 1 [IntT, LRef IntT, RRef IntT] = Some [LRef IntT]"
  "tuple_reduce_t (\<lambda>a b. Tuple [a, b]) [IntT] = Some IntT"
  "tuple_reduce_t (\<lambda>a b. Tuple [a, b]) [IntT, LRef IntT, RRef IntT]
     = Some (Tuple [Tuple [IntT, LRef IntT], RRef IntT])"
  "tuple_fold_t (\<lambda>a b. Tuple [a, b]) IntT [] = Some IntT"
  "tuple_fold_t (\<lambda>a b. Tuple [a, b]) IntT [LRef IntT, RRef IntT]
     = Some (Tuple [Tuple [IntT, LRef IntT], RRef IntT])"
  by (simp_all add: tuple_cat_t_def tuple_cat_impl_concat tuple_flip_t_def tuple_flip_impl_rev
      tuple_pick_t_def tuple_pick_impl_nth tuple_dup_t_def tuple_dup_impl_replicate
      tuple_skip_t_def tuple_skip_impl_drop tuple_take_t_def tuple_take_impl_take
      tuple_slice_t_take_drop tuple_reduce_t_foldl tuple_fold_t_def numeral_eq_Suc)

lemma indices_h_static_assertions:
  "shift_index_sequence_t 1 (make_index_sequence 0) = []"
  "shift_index_sequence_t 1 (make_index_sequence 2) = [1, 2]"
  "scale_index_sequence_t 1 (make_index_sequence 0) = []"
  "scale_index_sequence_t 2 (make_index_sequence 3) = [0, 2, 4]"
  "make_index_range 4 0 = []"
  "make_index_range 3 3 = [3, 4, 5]"
  by (simp_all add: shift_index_sequence_t_def scale_index_sequence_t_def
      map_index_sequence_t_def make_index_sequence_def make_index_range_def
      shift_index_impl_def scale_index_impl_def size_t_add_def size_t_mul_def SIZE_MOD_def
      upt_rec)

lemma tuple_h_first_find_assertions:
  "\<not> ih_value (meta_first (\<lambda>x. True) ([] :: kind list))"
  "meta_first (\<lambda>x. True) [IntT] = \<lparr>ih_value = True, ih_index = 0\<rparr>"
  "meta_first is_reference [IntT, LRef IntT, RRef IntT] = \<lparr>ih_value = True, ih_index = 1\<rparr>"
  "\<not> ih_value (meta_find IntT [])"
  "meta_find IntT [IntT] = \<lparr>ih_value = True, ih_index = 0\<rparr>"
  "meta_find IntT [CharT, IntT, Class ''long''] = \<lparr>ih_value = True, ih_index = 1\<rparr>"
  by (simp_all add: meta_find_def meta_first_def partial_def std_is_same_def)

text \<open>The runtime checks of the test suite for \<open>flip\<close>, \<open>pick\<close>, \<open>slice\<close>, \<open>first\<close> and \<open>find\<close>.\<close>

lemma test_suite_cases:
  "flip_f [(IntT, Stored 1), (IntT, Stored 2), (IntT, Stored 3)]
     = Some [(IntT, Stored 3), (IntT, Stored 2), (IntT, Stored 1)]"
  "pick_f [1, 1, 0] [(IntT, Stored 1), (IntT, Stored 2)]
     = Some [(IntT, Stored 2), (IntT, Stored 2), (IntT, Stored 1)]"
  "pick_f [] [(IntT, Stored 1), (IntT, Stored 2)] = Some []"
  "slice_f 1 0 [(IntT, Stored 1), (IntT, Stored 2), (IntT, Stored 3)] = Some []"
  "slice_f 1 1 [(RRef IntT, At 10), (RRef IntT, At 11), (RRef IntT, At 12)]
     = Some [(RRef IntT, At 11)]"
  "first_f (\<lambda>x. x > (1::int)) [1, 2, 3] = Optional (Some 1)"
  "find_f (3::int) [1, 2, 3] = Optional (Some 2)"
  "find_f (1::int) [] = Nullopt_t"
  by (simp_all add: flip_f_def flip_f_N_rev tuple_size_v_def pick_f_nth slice_f_take_drop
      SIZE_MOD_def find_f_def first_f_def first_impl.simps)

end
